theory Spec2Isabelle
  imports Complex_Main "HOL-Library.Char_ord" "HOL-Library.List_Lexorder"
begin

section \<open>Data model\<close>

text \<open>
  A pandas DataFrame with the columns \<^verbatim>\<open>iso3, life, continent\<close> is a list of rows, in
  index order. A cell that pandas shows as NaN (a missing value) is \<open>None\<close>. The values
  of the \<^verbatim>\<open>life\<close> column are Python floats; they are idealised as real numbers, so
  that rounding, overflow and the infinities of IEEE arithmetic are outside the model.
  A ranked frame has the additional integer column \<^verbatim>\<open>rank\<close>.
\<close>

record row =
  iso3 :: string
  life :: "real option"
  continent :: "string option"

record ranked = row +
  rank :: int

text \<open>
  The JSON answer of the WHO endpoint: \<^verbatim>\<open>requests.get(...).json()\<close> either raises
  (\<open>Failed\<close>) or gives a dictionary whose \<^verbatim>\<open>"value"\<close> entry is a list of records
  (\<open>Json\<close>; an absent entry is the empty list, as \<^verbatim>\<open>js.get("value", [])\<close> reads it).
  Of each record only the fields \<^verbatim>\<open>Dim1\<close> and \<^verbatim>\<open>NumericValue\<close> are read.
\<close>

record gho_value =
  Dim1 :: "string option"
  NumericValue :: "real option"

datatype response = Failed | Json "gho_value list"

text \<open>
  The world the program runs in: the cache directory (\<open>disk w y\<close> is the table stored in
  \<^verbatim>\<open>life_y.csv\<close>, \<open>None\<close> when the file does not exist), the external data source
  (what a GET for a country code and a year answers) and the log of the GET requests
  issued so far. The program writes the disk and the log; it only reads the source.
\<close>

record world =
  disk :: "int \<rightharpoonup> row list"
  source :: "string \<Rightarrow> int \<Rightarrow> response"
  requests :: "(string \<times> int) list"

definition some_country_codes :: "string list" where
  "some_country_codes = [
  ''AFG'', ''AGO'', ''ALB'', ''ARE'', ''ARG'', ''ARM'', ''ATG'', ''AUS'', ''AUT'', ''AZE'',
  ''BDI'', ''BEL'', ''BEN'', ''BFA'', ''BGD'', ''BGR'', ''BHR'', ''BHS'', ''BIH'', ''BLR'',
  ''BLZ'', ''BOL'', ''BRA'', ''BRB'', ''BRN'', ''BTN'', ''BWA'', ''CAF'', ''CAN'', ''CHE'',
  ''CHL'', ''CHN'', ''CIV'', ''CMR'', ''COD'', ''COG'', ''COL'', ''COM'', ''CPV'', ''CRI'',
  ''CUB'', ''CYP'', ''CZE'', ''DEU'', ''DJI'', ''DNK'', ''DOM'', ''DZA'', ''ECU'', ''EGY'',
  ''ERI'', ''ESP'', ''EST'', ''ETH'', ''FIN'', ''FJI'', ''FRA'', ''FSM'', ''GAB'', ''GBR'',
  ''GEO'', ''GHA'', ''GIN'', ''GMB'', ''GNB'', ''GNQ'', ''GRC'', ''GRD'', ''GTM'', ''GUY'',
  ''HND'', ''HRV'', ''HTI'', ''HUN'', ''IDN'', ''IND'', ''IRL'', ''IRN'', ''IRQ'', ''ISL'',
  ''ISR'', ''ITA'', ''JAM'', ''JOR'', ''JPN'', ''KAZ'', ''KEN'', ''KGZ'', ''KHM'', ''KIR'',
  ''KOR'', ''KWT'', ''LAO'', ''LBN'', ''LBR'', ''LBY'', ''LCA'', ''LKA'', ''LSO'', ''LTU'',
  ''LUX'', ''LVA'', ''MAR'', ''MDA'', ''MDG'', ''MDV'', ''MEX'', ''MKD'', ''MLI'', ''MLT'',
  ''MMR'', ''MNE'', ''MNG'', ''MOZ'', ''MRT'', ''MUS'', ''MWI'', ''MYS'', ''NAM'', ''NER'',
  ''NGA'', ''NIC'', ''NLD'', ''NOR'', ''NPL'', ''NZL'', ''OMN'', ''PAK'', ''PAN'', ''PER'',
  ''PHL'', ''PNG'', ''POL'', ''PRI'', ''PRK'', ''PRT'', ''PRY'', ''PSE'', ''QAT'', ''ROU'',
  ''RUS'', ''RWA'', ''SAU'', ''SDN'', ''SEN'', ''SGP'', ''SLB'', ''SLE'', ''SLV'', ''SOM'',
  ''SRB'', ''SSD'', ''STP'', ''SUR'', ''SVK'', ''SVN'', ''SWE'', ''SWZ'', ''SYC'', ''SYR'',
  ''TCD'', ''TGO'', ''THA'', ''TJK'', ''TKM'', ''TLS'', ''TON'', ''TTO'', ''TUN'', ''TUR'',
  ''TZA'', ''UGA'', ''UKR'', ''URY'', ''USA'', ''UZB'', ''VCT'', ''VEN'', ''VNM'', ''VUT'',
  ''WSM'', ''YEM'', ''ZAF'', ''ZMB'', ''ZWE'']"

section \<open>Fetching one year, through the cache\<close>

text \<open>
  The body of the loop over the country codes in \<^verbatim>\<open>fetch_year_df\<close>, for one code and
  the answer to its request. \<open>None\<close> is a \<^verbatim>\<open>continue\<close>: the request failed, the
  answer holds no record, or the picked record has no \<^verbatim>\<open>NumericValue\<close>. The picked
  record is the first one with \<^verbatim>\<open>Dim1 == "SEX_BTSX"\<close>, else the first record.
  \<open>cm\<close> is \<^verbatim>\<open>CONTINENT_MAP\<close>, which the program reads from a shapefile.
\<close>

definition fetch_row :: "(string \<rightharpoonup> string) \<Rightarrow> string \<Rightarrow> response \<Rightarrow> row option" where
  "fetch_row cm code resp =
     (case resp of
        Failed \<Rightarrow> None
      | Json vals \<Rightarrow>
          if vals = [] then None
          else
            let pick = (case find (\<lambda>v. Dim1 v = Some ''SEX_BTSX'') vals of
                          Some v \<Rightarrow> v
                        | None \<Rightarrow> hd vals)
            in (case NumericValue pick of
                  None \<Rightarrow> None
                | Some l \<Rightarrow>
                    Some \<lparr>iso3 = code, life = Some l,
                          continent = Some (case cm code of Some c \<Rightarrow> c | None \<Rightarrow> ''Other'')\<rparr>))"

text \<open>The loop itself: one request per code, logged, and the rows appended in order.\<close>

fun fetch_loop ::
  "(string \<rightharpoonup> string) \<Rightarrow> int \<Rightarrow> string list \<Rightarrow> row list \<Rightarrow> world \<Rightarrow> row list \<times> world" where
  "fetch_loop cm year [] rows w = (rows, w)"
| "fetch_loop cm year (code # codes) rows w =
     (let w' = w\<lparr>requests := requests w @ [(code, year)]\<rparr> in
      case fetch_row cm code (source w code year) of
        None \<Rightarrow> fetch_loop cm year codes rows w'
      | Some r \<Rightarrow> fetch_loop cm year codes (rows @ [r]) w')"

text \<open>
  The second half of \<^verbatim>\<open>fetch_year_df\<close> (from \<^verbatim>\<open>rows = []\<close> on): fetch every code,
  and write the table to the cache file unless it is empty.
\<close>

definition fetch_and_save :: "(string \<rightharpoonup> string) \<Rightarrow> int \<Rightarrow> world \<Rightarrow> row list \<times> world" where
  "fetch_and_save cm year w =
     (let (df, w') = fetch_loop cm year some_country_codes [] w in
      if df = [] then (df, w')
      else (df, w'\<lparr>disk := (disk w')(year \<mapsto> df)\<rparr>))"

text \<open>
  \<^verbatim>\<open>fetch_year_df\<close>: a cache file that exists and holds a non-empty table is returned;
  a missing file, and a file with an empty table, fall through to the fetch.
\<close>

definition fetch_year_df :: "(string \<rightharpoonup> string) \<Rightarrow> int \<Rightarrow> world \<Rightarrow> row list \<times> world" where
  "fetch_year_df cm year w =
     (case disk w year of
        Some df \<Rightarrow> if df \<noteq> [] then (df, w) else fetch_and_save cm year w
      | None \<Rightarrow> fetch_and_save cm year w)"

text \<open>
  \<^verbatim>\<open>range(candidate, candidate - max_back, -1)\<close>: the years \<open>candidate\<close>,
  \<open>candidate - 1\<close>, ..., \<open>candidate - max_back + 1\<close>; empty when \<open>max_back \<le> 0\<close>.
\<close>

definition range_down :: "int \<Rightarrow> int \<Rightarrow> int list" where
  "range_down candidate max_back = map (\<lambda>i. candidate - int i) [0..<nat max_back]"

fun find_latest_loop ::
  "(string \<rightharpoonup> string) \<Rightarrow> int list \<Rightarrow> int \<Rightarrow> world \<Rightarrow> int \<times> world" where
  "find_latest_loop cm [] floor_year w = (floor_year, w)"
| "find_latest_loop cm (y # ys) floor_year w =
     (let (df, w') = fetch_year_df cm y w in
      if df \<noteq> [] then (y, w') else find_latest_loop cm ys floor_year w')"

definition find_latest_available_year ::
  "(string \<rightharpoonup> string) \<Rightarrow> int \<Rightarrow> int \<Rightarrow> world \<Rightarrow> int \<times> world" where
  "find_latest_available_year cm candidate max_back w =
     find_latest_loop cm (range_down candidate max_back) (candidate - max_back) w"

text \<open>
  What a fetch of one year gives for a source, as a list: the rows of the codes whose
  request yields a usable value, in the order of the codes.
\<close>

definition fetch_rows :: "(string \<rightharpoonup> string) \<Rightarrow> (string \<Rightarrow> int \<Rightarrow> response) \<Rightarrow> int \<Rightarrow> row list" where
  "fetch_rows cm src year =
     List.map_filter (\<lambda>code. fetch_row cm code (src code year)) some_country_codes"

text \<open>The requests one fetch of a year issues.\<close>

definition year_requests :: "int \<Rightarrow> (string \<times> int) list" where
  "year_requests year = map (\<lambda>code. (code, year)) some_country_codes"

section \<open>Ranking\<close>

text \<open>
  Modelled from the spec: \<^verbatim>\<open>df.sort_values("life", ascending=False)\<close> is a call into
  pandas, a library outside the repository, and the spec reads it as "Sort entities by
  value descending (stable on ties by original order)". Rows whose value is NaN come
  last, in their original order (pandas' default \<^verbatim>\<open>na_position="last"\<close>). \<open>sort_key\<close>
  is a stable insertion sort, ascending in its key, here the negated value. pandas'
  default \<^verbatim>\<open>kind="quicksort"\<close> is not documented to be stable; what is proved about the
  order of ties holds for this model of the call.
\<close>

definition sort_values_desc :: "'a row_scheme list \<Rightarrow> 'a row_scheme list" where
  "sort_values_desc df =
     sort_key (\<lambda>r. - the (life r)) (filter (\<lambda>r. life r \<noteq> None) df) @
     filter (\<lambda>r. life r = None) df"

text \<open>
  \<^verbatim>\<open>reset_index(drop=True)\<close> followed by \<^verbatim>\<open>df["rank"] = df.index + 1\<close>: the rank of a
  row is its position, counted from 1. A rank column the frame already has is
  overwritten.
\<close>

definition assign_rank :: "'a row_scheme list \<Rightarrow> ranked list" where
  "assign_rank df =
     map (\<lambda>(i, r). \<lparr>iso3 = iso3 r, life = life r, continent = continent r, rank = int i + 1\<rparr>)
       (enumerate 0 df)"


section \<open>Interpolation\<close>

text \<open>
  A row of \<^verbatim>\<open>a.merge(b, on="iso3", how="outer", suffixes=("_0", "_1"))\<close>, where \<open>a\<close>
  has the columns \<^verbatim>\<open>iso3, life, continent\<close> of \<^verbatim>\<open>df0\<close> and \<open>b\<close> the columns
  \<^verbatim>\<open>iso3, life\<close> of \<^verbatim>\<open>df1\<close>: the continent column of \<^verbatim>\<open>df1\<close> is not selected.
\<close>

record merged_row =
  m_iso3 :: string
  life_0 :: "real option"
  m_continent :: "string option"
  life_1 :: "real option"

text \<open>
  Modelled from the spec: the merge is a call into pandas, and the spec reads it as
  "the union of entity identities present in A or B (outer join on identity)". The
  shape of the result follows pandas' documentation of \<^verbatim>\<open>how="outer"\<close>: the keys of
  both frames, sorted lexicographically; for a key on both sides every pair of a left
  and a right row, for a key on one side its rows with NaN in the columns of the other
  side.
\<close>

definition merge_key :: "'a row_scheme list \<Rightarrow> 'b row_scheme list \<Rightarrow> string \<Rightarrow> merged_row list" where
  "merge_key a b k =
     (let la = filter (\<lambda>r. iso3 r = k) a; lb = filter (\<lambda>r. iso3 r = k) b in
      if lb = [] then
        map (\<lambda>ra. \<lparr>m_iso3 = k, life_0 = life ra, m_continent = continent ra, life_1 = None\<rparr>) la
      else if la = [] then
        map (\<lambda>rb. \<lparr>m_iso3 = k, life_0 = None, m_continent = None, life_1 = life rb\<rparr>) lb
      else
        concat (map (\<lambda>ra. map (\<lambda>rb.
          \<lparr>m_iso3 = k, life_0 = life ra, m_continent = continent ra, life_1 = life rb\<rparr>) lb) la))"

definition merge_outer :: "'a row_scheme list \<Rightarrow> 'b row_scheme list \<Rightarrow> merged_row list" where
  "merge_outer a b =
     concat (map (merge_key a b) (sort (remdups (map iso3 a @ map iso3 b))))"

text \<open>Arithmetic on cells: the result is NaN as soon as an operand is.\<close>

definition nan2 :: "(real \<Rightarrow> real \<Rightarrow> real) \<Rightarrow> real option \<Rightarrow> real option \<Rightarrow> real option" where
  "nan2 f x y = (case x of None \<Rightarrow> None | Some a \<Rightarrow> (case y of None \<Rightarrow> None | Some b \<Rightarrow> Some (f a b)))"

text \<open>\<^verbatim>\<open>s.where(~s.isna(), other)\<close>: a NaN cell is replaced by the cell of \<open>other\<close>.\<close>

definition where_notna :: "'a option \<Rightarrow> 'a option \<Rightarrow> 'a option" where
  "where_notna s other = (case s of None \<Rightarrow> other | Some v \<Rightarrow> Some v)"

text \<open>
  The three assignments to \<^verbatim>\<open>merged["life"]\<close>, for one row:
  \<^verbatim>\<open>life_0 + (life_1 - life_0) * t\<close>, then the two fallbacks.
\<close>

definition interp_life :: "real \<Rightarrow> merged_row \<Rightarrow> real option" where
  "interp_life t m =
     (let l = nan2 (+) (life_0 m) (nan2 (*) (nan2 (-) (life_1 m) (life_0 m)) (Some t));
          l = where_notna l (life_0 m);
          l = where_notna l (life_1 m)
      in l)"

text \<open>\<^verbatim>\<open>merged["continent"].fillna("Other")\<close>.\<close>

definition fill_other :: "string option \<Rightarrow> string option" where
  "fill_other c = (case c of None \<Rightarrow> Some ''Other'' | Some s \<Rightarrow> Some s)"

definition interp_row :: "real \<Rightarrow> merged_row \<Rightarrow> row" where
  "interp_row t m =
     \<lparr>iso3 = m_iso3 m, life = interp_life t m, continent = fill_other (m_continent m)\<rparr>"

text \<open>
  \<^verbatim>\<open>interpolate_df\<close>: merge, interpolate each row, drop the rows whose value is still
  NaN (\<^verbatim>\<open>dropna(subset=["life"])\<close>), sort by value and rank.
\<close>

definition interpolate_df :: "'a row_scheme list \<Rightarrow> 'b row_scheme list \<Rightarrow> real \<Rightarrow> ranked list" where
  "interpolate_df df0 df1 t =
     (let merged = merge_outer df0 df1;
          out = filter (\<lambda>r. life r \<noteq> None) (map (interp_row t) merged)
      in assign_rank (sort_values_desc out))"

section \<open>Movement detection\<close>





section \<open>The frame sequence of the race\<close>

text \<open>
  One call of \<^verbatim>\<open>render_frame\<close>, by its arguments: the frame's table, the previous
  frame's table, the label and the index that names the output file. The label is
  \<^verbatim>\<open>f"{y}+{t:.2f}"\<close> for an interpolated frame (\<open>Interp y t\<close>) and \<^verbatim>\<open>str(end)\<close> for the
  frame of a year (\<open>Year end\<close>).
\<close>

datatype label = Interp int real | Year int

record frame =
  f_df :: "ranked list"
  f_prev :: "ranked list option"
  f_label :: label
  f_index :: nat

record seq_state =
  frames :: "frame list"
  prev_df :: "ranked list option"
  frame_idx :: nat

definition emit :: "ranked list \<Rightarrow> label \<Rightarrow> seq_state \<Rightarrow> seq_state" where
  "emit df l st =
     st\<lparr>frames := frames st @ [\<lparr>f_df = df, f_prev = prev_df st, f_label = l, f_index = frame_idx st\<rparr>]\<rparr>"

text \<open>The inner loop \<^verbatim>\<open>for s in range(steps)\<close>.\<close>

fun steps_loop :: "ranked list \<Rightarrow> ranked list \<Rightarrow> int \<Rightarrow> nat \<Rightarrow> nat list \<Rightarrow> seq_state \<Rightarrow> seq_state" where
  "steps_loop df0 df1 y steps [] st = st"
| "steps_loop df0 df1 y steps (s # ss) st =
     (let t = real s / real steps;
          df_t = interpolate_df df0 df1 t;
          st = emit df_t (Interp y t) st;
          st = st\<lparr>prev_df := Some df_t\<rparr>;
          st = st\<lparr>frame_idx := frame_idx st + 1\<rparr>
      in steps_loop df0 df1 y steps ss st)"

text \<open>The outer loop \<^verbatim>\<open>for y in range(start, end)\<close>; a pair with a missing year is skipped.\<close>

fun years_loop :: "(int \<rightharpoonup> ranked list) \<Rightarrow> nat \<Rightarrow> int list \<Rightarrow> seq_state \<Rightarrow> seq_state" where
  "years_loop year_dfs steps [] st = st"
| "years_loop year_dfs steps (y # ys) st =
     (case year_dfs y of
        None \<Rightarrow> years_loop year_dfs steps ys st
      | Some df0 \<Rightarrow>
          (case year_dfs (y + 1) of
             None \<Rightarrow> years_loop year_dfs steps ys st
           | Some df1 \<Rightarrow>
               years_loop year_dfs steps ys (steps_loop df0 df1 y steps [0..<steps] st)))"

text \<open>\<^verbatim>\<open>range(start, end)\<close>.\<close>

definition range_up :: "int \<Rightarrow> int \<Rightarrow> int list" where
  "range_up start end = map (\<lambda>i. start + int i) [0..<nat (end - start)]"

text \<open>
  The frames \<^verbatim>\<open>main_race\<close> renders, from \<^verbatim>\<open>frame_idx = 0\<close> on, for the ranked tables
  \<^verbatim>\<open>year_dfs\<close> of the years \<open>start..end\<close>: the frames of the pairs, then one frame
  for the last year. The source fixes \<^verbatim>\<open>steps = 12\<close>.
\<close>

definition race_frames :: "(int \<rightharpoonup> ranked list) \<Rightarrow> int \<Rightarrow> int \<Rightarrow> nat \<Rightarrow> frame list" where
  "race_frames year_dfs start end steps =
     (let st = years_loop year_dfs steps (range_up start end)
                 \<lparr>frames = [], prev_df = None, frame_idx = 0\<rparr>
      in case year_dfs end of
           None \<Rightarrow> frames st
         | Some df_last \<Rightarrow> frames (emit df_last (Year end) st))"

definition main_race_frames :: "(int \<rightharpoonup> ranked list) \<Rightarrow> int \<Rightarrow> int \<Rightarrow> frame list" where
  "main_race_frames year_dfs start end = race_frames year_dfs start end 12"

section \<open>Reading a table by identity\<close>

text \<open>The row of an identity, and its value and category, in a table.\<close>

definition row_of :: "'a row_scheme list \<Rightarrow> string \<Rightarrow> 'a row_scheme option" where
  "row_of df k = find (\<lambda>r. iso3 r = k) df"

definition value_of :: "'a row_scheme list \<Rightarrow> string \<Rightarrow> real option" where
  "value_of df k = (case row_of df k of None \<Rightarrow> None | Some r \<Rightarrow> life r)"

definition category_of :: "'a row_scheme list \<Rightarrow> string \<Rightarrow> string option" where
  "category_of df k = (case row_of df k of None \<Rightarrow> None | Some r \<Rightarrow> continent r)"

text \<open>The identities of a table, and the columns of a row other than the rank.\<close>

definition ids :: "'a row_scheme list \<Rightarrow> string list" where
  "ids df = map iso3 df"

definition cols :: "'a row_scheme \<Rightarrow> string \<times> real option \<times> string option" where
  "cols r = (iso3 r, life r, continent r)"

section \<open>The interpolation rule in the spec's words\<close>

text \<open>
  The value the spec gives an identity between two snapshots, from its value in each
  (\<open>None\<close>: no value there): linear when both are known, the one known value carried
  forward otherwise, none when neither is known.
\<close>

definition spec_value :: "real \<Rightarrow> real option \<Rightarrow> real option \<Rightarrow> real option" where
  "spec_value t va vb =
     (case va of
        Some a \<Rightarrow> (case vb of Some b \<Rightarrow> Some (a + (b - a) * t) | None \<Rightarrow> Some a)
      | None \<Rightarrow> vb)"

text \<open>
  The merged row and the interpolated row of an identity, for tables in which every
  identity has one row.
\<close>

definition mrow :: "'a row_scheme list \<Rightarrow> 'b row_scheme list \<Rightarrow> string \<Rightarrow> merged_row" where
  "mrow a b k =
     \<lparr>m_iso3 = k, life_0 = value_of a k, m_continent = category_of a k, life_1 = value_of b k\<rparr>"

definition irow :: "real \<Rightarrow> 'a row_scheme list \<Rightarrow> 'b row_scheme list \<Rightarrow> string \<Rightarrow> row" where
  "irow t a b k =
     \<lparr>iso3 = k, life = spec_value t (value_of a k) (value_of b k),
      continent = fill_other (category_of a k)\<rparr>"

section \<open>The frame sequence in closed form\<close>

text \<open>One pass of the inner loop's body on the sequencer state.\<close>

definition step_state :: "ranked list \<Rightarrow> label \<Rightarrow> seq_state \<Rightarrow> seq_state" where
  "step_state df l st = (emit df l st)\<lparr>prev_df := Some df, frame_idx := frame_idx st + 1\<rparr>"

text \<open>
  The table and the label of the frames of one pair of years: the interpolation steps
  \<open>t = 0/S, ..., (S-1)/S\<close> when both years have a table, no frame otherwise.
\<close>

definition pair_frames :: "(int \<rightharpoonup> ranked list) \<Rightarrow> nat \<Rightarrow> int \<Rightarrow> (ranked list \<times> label) list" where
  "pair_frames year_dfs steps y =
     (case year_dfs y of
        None \<Rightarrow> []
      | Some df0 \<Rightarrow>
          (case year_dfs (y + 1) of
             None \<Rightarrow> []
           | Some df1 \<Rightarrow>
               map (\<lambda>s. (interpolate_df df0 df1 (real s / real steps),
                          Interp y (real s / real steps))) [0..<steps]))"

text \<open>
  A sequencer state is chained when the frames so far are numbered from 0, each was
  rendered against the table of the frame before it, and the previous-frame reference
  is the table of the last frame.
\<close>

definition chained :: "seq_state \<Rightarrow> bool" where
  "chained st \<longleftrightarrow>
     frame_idx st = length (frames st) \<and>
     map f_index (frames st) = [0..<length (frames st)] \<and>
     map f_prev (frames st) = butlast (None # map (\<lambda>f. Some (f_df f)) (frames st)) \<and>
     prev_df st = last (None # map (\<lambda>f. Some (f_df f)) (frames st))"

section \<open>Example inputs\<close>

text \<open>
  A source that knows one country, Japan, up to the year 2018 (two records, the second
  one for both sexes), and a world with that source, an empty cache and no request yet.
\<close>

definition jpn_source :: "string \<Rightarrow> int \<Rightarrow> response" where
  "jpn_source code year =
     (if code = ''JPN'' \<and> year \<le> 2018
      then Json [\<lparr>Dim1 = Some ''SEX_MLE'', NumericValue = Some 78\<rparr>,
                 \<lparr>Dim1 = Some ''SEX_BTSX'', NumericValue = Some 81\<rparr>]
      else Failed)"

definition world0 :: world where
  "world0 = \<lparr>disk = Map.empty, source = jpn_source, requests = []\<rparr>"

definition no_source :: "string \<Rightarrow> int \<Rightarrow> response" where
  "no_source code year = Failed"


text \<open>
  The ranked tables of two years: the second has a country the first lacks, and both
  have a row without a value.
\<close>

definition y2000 :: "ranked list" where
  "y2000 = [\<lparr>iso3 = ''JPN'', life = Some 81, continent = Some ''Asia'', rank = 1\<rparr>,
            \<lparr>iso3 = ''USA'', life = Some 77, continent = Some ''North America'', rank = 2\<rparr>,
            \<lparr>iso3 = ''XXX'', life = None, continent = Some ''Oceania'', rank = 3\<rparr>]"

definition y2001 :: "ranked list" where
  "y2001 = [\<lparr>iso3 = ''JPN'', life = Some 82, continent = Some ''Asia'', rank = 1\<rparr>,
            \<lparr>iso3 = ''FRA'', life = Some 79, continent = Some ''Europe'', rank = 2\<rparr>,
            \<lparr>iso3 = ''USA'', life = Some 78, continent = Some ''North America'', rank = 3\<rparr>,
            \<lparr>iso3 = ''XXX'', life = None, continent = Some ''Oceania'', rank = 4\<rparr>]"



definition r1999 :: "ranked list" where
  "r1999 = [\<lparr>iso3 = ''JPN'', life = Some 80, continent = Some ''Asia'', rank = 1\<rparr>,
            \<lparr>iso3 = ''USA'', life = Some 76, continent = Some ''North America'', rank = 2\<rparr>]"

definition r2000 :: "ranked list" where
  "r2000 = [\<lparr>iso3 = ''JPN'', life = Some 81, continent = Some ''Asia'', rank = 1\<rparr>,
            \<lparr>iso3 = ''USA'', life = Some 77, continent = Some ''North America'', rank = 2\<rparr>]"

definition r2001 :: "ranked list" where
  "r2001 = [\<lparr>iso3 = ''JPN'', life = Some 82, continent = Some ''Asia'', rank = 1\<rparr>,
            \<lparr>iso3 = ''FRA'', life = Some 79, continent = Some ''Europe'', rank = 2\<rparr>,
            \<lparr>iso3 = ''USA'', life = Some 78, continent = Some ''North America'', rank = 3\<rparr>]"

definition three_years :: "int \<rightharpoonup> ranked list" where
  "three_years = [1999 \<mapsto> r1999, 2000 \<mapsto> r2000, 2001 \<mapsto> r2001]"

section \<open>The cache is read-through\<close>

lemma fetch_loop_eq:
  "fetch_loop cm year codes rows w =
     (rows @ List.map_filter (\<lambda>code. fetch_row cm code (source w code year)) codes,
      w\<lparr>requests := requests w @ map (\<lambda>code. (code, year)) codes\<rparr>)"
proof (induction codes arbitrary: rows w)
  case Nil
  show ?case by simp
next
  case (Cons code codes)
  show ?case
    by (cases "fetch_row cm code (source w code year)")
       (simp_all add: Cons.IH Let_def)
qed

lemma fetch_and_save_eq:
  "fetch_and_save cm year w =
     (let df = fetch_rows cm (source w) year;
          w' = w\<lparr>requests := requests w @ year_requests year\<rparr>
      in if df = [] then (df, w') else (df, w'\<lparr>disk := (disk w)(year \<mapsto> df)\<rparr>))"
  by (simp add: fetch_and_save_def fetch_loop_eq fetch_rows_def year_requests_def Let_def)

lemma year_requests_nonempty: "year_requests year \<noteq> []"
  by (simp add: year_requests_def some_country_codes_def)

lemma fetch_year_df_cases:
  "fetch_year_df cm y w =
     (case disk w y of
        Some (r # rs) \<Rightarrow> (r # rs, w)
      | _ \<Rightarrow> fetch_and_save cm y w)"
  by (simp add: fetch_year_df_def split: option.splits list.splits)

lemma fetch_rows_jpn_2018:
  "fetch_rows Map.empty jpn_source 2018 =
     [\<lparr>iso3 = ''JPN'', life = Some 81, continent = Some ''Other''\<rparr>]"
  by (simp add: fetch_rows_def some_country_codes_def jpn_source_def fetch_row_def)

lemma fetch_rows_jpn_later: "2018 < y \<Longrightarrow> fetch_rows Map.empty jpn_source y = []"
  by (simp add: fetch_rows_def jpn_source_def fetch_row_def List.map_filter_def)

lemma fetch_rows_no_source: "fetch_rows cm no_source y = []"
  by (simp add: fetch_rows_def no_source_def fetch_row_def List.map_filter_def)

lemma fetch_world0:
  "fst (fetch_year_df Map.empty y world0) = fetch_rows Map.empty jpn_source y"
  by (simp add: fetch_year_df_cases fetch_and_save_eq world0_def Let_def)

text \<open>
  C1. \<^verbatim>\<open>fetch_year_df\<close> (the cache's get) is read-through with no negative caching.
  When the cache file of the year holds a non-empty table, the call returns it and
  leaves the world as it is: no request is issued. Otherwise every country code is
  requested; a non-empty result is written to the cache under the year and returned, an
  empty result is returned and the cache is left as it was. For a second call of the
  same year (whatever the source answers by then): after a first call with a non-empty
  result it is a hit, with the same table and no new request; after a first call with
  an empty result all the requests are issued again.
\<close>

theorem cache_get_read_through:
  "let r1 = fetch_year_df cm y w; w1 = snd r1;
       r2 = fetch_year_df cm y (w1\<lparr>source := src'\<rparr>); w2 = snd r2
   in (case disk w y of
         Some (r # rs) \<Rightarrow> r1 = (r # rs, w)
       | _ \<Rightarrow> fst r1 = fetch_rows cm (source w) y \<and>
              requests w1 = requests w @ year_requests y \<and>
              source w1 = source w \<and>
              disk w1 = (if fst r1 = [] then disk w else (disk w)(y \<mapsto> fst r1))) \<and>
      (if fst r1 \<noteq> [] then fst r2 = fst r1 \<and> requests w2 = requests w1 \<and> disk w2 = disk w1
       else fst r2 = fetch_rows cm src' y \<and> requests w2 = requests w1 @ year_requests y) \<and>
      year_requests y \<noteq> []"
  by (auto simp: Let_def fetch_year_df_cases fetch_and_save_eq year_requests_nonempty
      split: option.splits list.splits)

theorem cache_get_read_through_witness:
  "fst (fetch_year_df Map.empty 2018 world0) =
     [\<lparr>iso3 = ''JPN'', life = Some 81, continent = Some ''Other''\<rparr>] \<and>
   requests (snd (fetch_year_df Map.empty 2018 world0)) = year_requests 2018 \<and>
   requests (snd (fetch_year_df Map.empty 2018
     ((snd (fetch_year_df Map.empty 2018 world0))\<lparr>source := no_source\<rparr>))) = year_requests 2018 \<and>
   fst (fetch_year_df Map.empty 2019 world0) = [] \<and>
   requests (snd (fetch_year_df Map.empty 2019
     ((snd (fetch_year_df Map.empty 2019 world0))\<lparr>source := no_source\<rparr>))) =
     year_requests 2019 @ year_requests 2019"
  using cache_get_read_through [where cm = Map.empty and y = 2018 and w = world0 and src' = no_source]
    cache_get_read_through [where cm = Map.empty and y = 2019 and w = world0 and src' = no_source]
  by (simp add: Let_def world0_def fetch_rows_jpn_2018 fetch_rows_jpn_later)

text \<open>
  C10. A cache file that exists but holds an empty table does not short-circuit the
  call: the call on a world whose file of the year is empty returns what the call on
  the same world without the file returns, namely the freshly fetched rows, after
  issuing the same requests; a non-empty result overwrites the empty file.
\<close>

theorem empty_entry_falls_through:
  "let w_empty = w\<lparr>disk := (disk w)(y \<mapsto> [])\<rparr>;
       w_absent = w\<lparr>disk := (disk w)(y := None)\<rparr>;
       r_empty = fetch_year_df cm y w_empty;
       r_absent = fetch_year_df cm y w_absent
   in fst r_empty = fst r_absent \<and>
      fst r_empty = fetch_rows cm (source w) y \<and>
      requests (snd r_empty) = requests w @ year_requests y \<and>
      requests (snd r_absent) = requests w @ year_requests y \<and>
      disk (snd r_empty) =
        (if fst r_empty = [] then (disk w)(y \<mapsto> []) else (disk w)(y \<mapsto> fst r_empty)) \<and>
      disk (snd r_absent) =
        (if fst r_empty = [] then (disk w)(y := None) else (disk w)(y \<mapsto> fst r_empty))"
  by (simp add: Let_def fetch_year_df_cases fetch_and_save_eq)

theorem empty_entry_falls_through_witness:
  "fst (fetch_year_df Map.empty 2018 (world0\<lparr>disk := (disk world0)(2018 \<mapsto> [])\<rparr>)) =
     [\<lparr>iso3 = ''JPN'', life = Some 81, continent = Some ''Other''\<rparr>] \<and>
   requests (snd (fetch_year_df Map.empty 2018 (world0\<lparr>disk := (disk world0)(2018 \<mapsto> [])\<rparr>))) =
     year_requests 2018"
proof -
  note t = empty_entry_falls_through [where cm = Map.empty and y = 2018 and w = world0,
      unfolded Let_def]
  from t have a: "fst (fetch_year_df Map.empty 2018 (world0\<lparr>disk := (disk world0)(2018 \<mapsto> [])\<rparr>)) =
      fetch_rows Map.empty (source world0) 2018"
    by blast
  from t have b: "requests (snd (fetch_year_df Map.empty 2018
      (world0\<lparr>disk := (disk world0)(2018 \<mapsto> [])\<rparr>))) = requests world0 @ year_requests 2018"
    by blast
  show ?thesis
    unfolding a b by (simp add: world0_def fetch_rows_jpn_2018)
qed

section \<open>The availability resolver\<close>

lemma fetch_year_df_empty_world:
  "fst (fetch_year_df cm y w) = [] \<Longrightarrow>
   disk (snd (fetch_year_df cm y w)) = disk w \<and> source (snd (fetch_year_df cm y w)) = source w"
  by (auto simp: fetch_year_df_cases fetch_and_save_eq Let_def
      split: option.splits list.splits if_splits)

lemma fetch_year_df_fst_cong:
  "disk w' = disk w \<Longrightarrow> source w' = source w \<Longrightarrow>
   fst (fetch_year_df cm y w') = fst (fetch_year_df cm y w)"
  by (simp add: fetch_year_df_cases fetch_and_save_eq Let_def split: option.splits list.splits)

lemma find_latest_loop_eq:
  "disk w' = disk w \<Longrightarrow> source w' = source w \<Longrightarrow>
   fst (find_latest_loop cm ys fl w') =
     (case find (\<lambda>y. fst (fetch_year_df cm y w) \<noteq> []) ys of Some y \<Rightarrow> y | None \<Rightarrow> fl)"
proof (induction ys arbitrary: w')
  case Nil
  show ?case by simp
next
  case (Cons y ys)
  have eq: "fst (fetch_year_df cm y w') = fst (fetch_year_df cm y w)"
    using Cons.prems by (rule fetch_year_df_fst_cong)
  show ?case
  proof (cases "fst (fetch_year_df cm y w) = []")
    case True
    with eq have e': "fst (fetch_year_df cm y w') = []" by simp
    from fetch_year_df_empty_world[OF e'] Cons.prems
    have "disk (snd (fetch_year_df cm y w')) = disk w"
      "source (snd (fetch_year_df cm y w')) = source w"
      by simp_all
    from Cons.IH[OF this] show ?thesis using True e'
      by (simp add: split_beta)
  next
    case False
    with eq show ?thesis by (simp add: split_beta)
  qed
qed

lemma range_down_2021_6: "range_down 2021 6 = [2021, 2020, 2019, 2018, 2017, 2016]"
  by (simp add: range_down_def upt_rec)

text \<open>
  C5. \<^verbatim>\<open>find_latest_available_year\<close> returns the first of the years \<open>candidate\<close>,
  \<open>candidate - 1\<close>, ..., \<open>candidate - max_back + 1\<close> for which the cache's get (in the
  world the call starts in) yields a non-empty table, and \<open>candidate - max_back\<close> when
  none of these years does.
\<close>

theorem resolve_latest_first_nonempty:
  "fst (find_latest_available_year cm candidate max_back w) =
     (case find (\<lambda>y. fst (fetch_year_df cm y w) \<noteq> []) (range_down candidate max_back) of
        Some y \<Rightarrow> y
      | None \<Rightarrow> candidate - max_back)"
  unfolding find_latest_available_year_def by (rule find_latest_loop_eq) simp_all

text \<open>
  The scenario of the spec: the years 2019 to 2021 are empty, 2018 is populated; from
  the candidate 2021 with a lookback of 6 the resolver returns 2018. With no data at
  all it returns the floor 2015.
\<close>

theorem resolve_latest_first_nonempty_witness:
  "fst (find_latest_available_year Map.empty 2021 6 world0) = 2018 \<and>
   fst (find_latest_available_year Map.empty 2021 6 (world0\<lparr>source := no_source\<rparr>)) = 2015"
  by (simp add: resolve_latest_first_nonempty range_down_2021_6 fetch_world0
      fetch_rows_jpn_later fetch_rows_jpn_2018 fetch_year_df_cases fetch_and_save_eq
      fetch_rows_no_source world0_def Let_def)

section \<open>Ranking is idempotent\<close>

lemma length_assign_rank [simp]: "length (assign_rank xs) = length xs"
  by (simp add: assign_rank_def)

lemma nth_assign_rank:
  "i < length xs \<Longrightarrow> assign_rank xs ! i =
     \<lparr>iso3 = iso3 (xs ! i), life = life (xs ! i), continent = continent (xs ! i), rank = int i + 1\<rparr>"
  by (simp add: assign_rank_def nth_enumerate_eq)

lemma map_life_assign_rank [simp]: "map life (assign_rank xs) = map life xs"
  by (rule nth_equalityI) (simp_all add: nth_assign_rank)

lemma map_cols_assign_rank [simp]: "map cols (assign_rank xs) = map cols xs"
  by (rule nth_equalityI) (simp_all add: nth_assign_rank cols_def)

lemma upto_1_int: "map (\<lambda>i. int i + 1) [0..<n] = [1..int n]"
proof (induction n)
  case 0
  show ?case by simp
next
  case (Suc n)
  have "[1..int (Suc n)] = [1..int n] @ [int n + 1]"
    by (simp add: upto_rec2 add.commute)
  with Suc show ?case by simp
qed

lemma map_rank_assign_rank: "map rank (assign_rank xs) = [1..int (length xs)]"
proof -
  have "map rank (assign_rank xs) = map (\<lambda>i. int i + 1) [0..<length xs]"
    by (rule nth_equalityI) (simp_all add: nth_assign_rank)
  then show ?thesis by (simp only: upto_1_int)
qed






lemma length_sort_values_desc [simp]: "length (sort_values_desc xs) = length xs"
  using sum_length_filter_compl[of "\<lambda>r. life r \<noteq> None" xs]
  by (simp del: not_None_eq add: sort_values_desc_def)








section \<open>The interpolated table\<close>

lemma row_of_None_iff: "row_of a k = None \<longleftrightarrow> k \<notin> set (ids a)"
  by (auto simp: row_of_def ids_def find_None_iff)

lemma row_of_SomeD: "row_of a k = Some r \<Longrightarrow> iso3 r = k \<and> r \<in> set a"
  by (auto simp: row_of_def find_Some_iff)

lemma row_of_distinct:
  "distinct (ids xs) \<Longrightarrow> r \<in> set xs \<Longrightarrow> row_of xs (iso3 r) = Some r"
  by (induction xs) (auto simp: row_of_def ids_def)

lemma filter_iso3_distinct:
  "distinct (ids a) \<Longrightarrow>
   filter (\<lambda>r. iso3 r = k) a = (case row_of a k of None \<Rightarrow> [] | Some r \<Rightarrow> [r])"
proof (induction a)
  case Nil
  show ?case by (simp add: row_of_def)
next
  case (Cons r a)
  show ?case
  proof (cases "iso3 r = k")
    case True
    with Cons.prems have "k \<notin> iso3 ` set a" by (auto simp: ids_def)
    then have "filter (\<lambda>r. iso3 r = k) a = []" by (auto simp: filter_empty_conv)
    with True show ?thesis by (simp add: row_of_def)
  next
    case False
    with Cons show ?thesis by (simp add: row_of_def ids_def)
  qed
qed

lemma value_of_notin: "k \<notin> set (ids xs) \<Longrightarrow> value_of xs k = None \<and> category_of xs k = None"
  by (simp add: value_of_def category_of_def flip: row_of_None_iff)

lemma value_of_cols:
  assumes "distinct (ids xs)" and "(k, l, c) \<in> cols ` set xs"
  shows "value_of xs k = l \<and> category_of xs k = c"
proof -
  from assms(2) obtain r where r: "r \<in> set xs" "iso3 r = k" "life r = l" "continent r = c"
    by (auto simp: cols_def)
  from row_of_distinct[OF assms(1) r(1)] r show ?thesis
    by (simp add: value_of_def category_of_def)
qed

lemma merge_key_distinct:
  assumes "distinct (ids a)" and "distinct (ids b)" and "k \<in> set (ids a) \<union> set (ids b)"
  shows "merge_key a b k = [mrow a b k]"
proof -
  from assms(3) have "row_of a k \<noteq> None \<or> row_of b k \<noteq> None"
    by (auto simp: row_of_None_iff)
  then show ?thesis
    unfolding merge_key_def Let_def filter_iso3_distinct[OF assms(1)] filter_iso3_distinct[OF assms(2)]
    by (cases "row_of a k"; cases "row_of b k")
       (simp_all add: mrow_def value_of_def category_of_def)
qed

lemma merge_outer_distinct:
  assumes "distinct (ids a)" and "distinct (ids b)"
  shows "merge_outer a b = map (mrow a b) (sort (remdups (ids a @ ids b)))"
proof -
  let ?ks = "sort (remdups (ids a @ ids b))"
  have eq: "map (merge_key a b) ?ks = map (\<lambda>k. [mrow a b k]) ?ks"
    by (rule map_cong) (auto simp: merge_key_distinct[OF assms])
  have "concat (map (merge_key a b) ?ks) = map (mrow a b) ?ks"
    unfolding eq by simp
  then show ?thesis by (simp add: merge_outer_def ids_def)
qed

lemma interp_life_mrow:
  "interp_life t (mrow a b k) = spec_value t (value_of a k) (value_of b k)"
  by (cases "value_of a k"; cases "value_of b k")
     (simp_all add: interp_life_def mrow_def spec_value_def nan2_def where_notna_def)

lemma interp_row_mrow: "interp_row t (mrow a b k) = irow t a b k"
  by (simp add: interp_row_def irow_def interp_life_mrow) (simp add: mrow_def)

lemma spec_value_None_iff: "spec_value t va vb = None \<longleftrightarrow> va = None \<and> vb = None"
  by (cases va; cases vb) (simp_all add: spec_value_def)

text \<open>With unique identities, the table before sorting has one row per known identity.\<close>

lemma interpolate_df_distinct:
  assumes "distinct (ids a)" and "distinct (ids b)"
  shows "interpolate_df a b t =
     assign_rank (sort_values_desc (filter (\<lambda>r. life r \<noteq> None)
       (map (irow t a b) (sort (remdups (ids a @ ids b))))))"
  by (simp add: interpolate_df_def merge_outer_distinct[OF assms] interp_row_mrow comp_def)

lemma set_sort_values_desc [simp]: "set (sort_values_desc xs) = set xs"
  by (auto simp: sort_values_desc_def)

lemma distinct_sort_values_desc: "distinct xs \<Longrightarrow> distinct (sort_values_desc xs)"
  by (auto simp: sort_values_desc_def)

lemma distinct_ids_sort_values_desc:
  "distinct (ids xs) \<Longrightarrow> distinct (ids (sort_values_desc xs))"
  by (simp add: ids_def distinct_map distinct_sort_values_desc)

lemma set_ids_sort_values_desc [simp]: "set (ids (sort_values_desc xs)) = set (ids xs)"
  by (simp add: ids_def)

lemma ids_assign_rank [simp]: "ids (assign_rank xs) = ids xs"
  unfolding ids_def by (rule nth_equalityI) (simp_all add: nth_assign_rank)

lemma cols_set_assign_rank: "cols ` set (assign_rank xs) = cols ` set xs"
  using map_cols_assign_rank[of xs] by (metis set_map)

lemma ids_filter_irow:
  "ids (filter (\<lambda>r. life r \<noteq> None) (map (irow t a b) ks)) =
     filter (\<lambda>k. spec_value t (value_of a k) (value_of b k) \<noteq> None) ks"
  by (induction ks) (simp_all add: ids_def irow_def)

lemma interp_lookup:
  assumes da: "distinct (ids a)" and db: "distinct (ids b)"
  shows "value_of (interpolate_df a b t) k = spec_value t (value_of a k) (value_of b k)"
    and "category_of (interpolate_df a b t) k =
       (if spec_value t (value_of a k) (value_of b k) = None then None
        else fill_other (category_of a k))"
    and "k \<in> set (ids (interpolate_df a b t)) \<longleftrightarrow>
       spec_value t (value_of a k) (value_of b k) \<noteq> None"
    and "distinct (ids (interpolate_df a b t))"
proof -
  let ?ks = "sort (remdups (ids a @ ids b))"
  let ?pre = "filter (\<lambda>r. life r \<noteq> None) (map (irow t a b) ?ks)"
  let ?out = "interpolate_df a b t"
  let ?v = "spec_value t (value_of a k) (value_of b k)"
  have out: "?out = assign_rank (sort_values_desc ?pre)"
    by (rule interpolate_df_distinct[OF da db])
  have idsp: "ids ?pre = filter (\<lambda>k. spec_value t (value_of a k) (value_of b k) \<noteq> None) ?ks"
    by (rule ids_filter_irow)
  have dpre: "distinct (ids ?pre)" unfolding idsp by simp
  show dout: "distinct (ids ?out)"
    unfolding out using dpre by (simp add: distinct_ids_sort_values_desc)
  have colsout: "cols ` set ?out = cols ` set ?pre"
    unfolding out by (simp add: cols_set_assign_rank)
  have setids: "set (ids ?out) = set (ids ?pre)"
    unfolding out by simp
  have keys: "?v \<noteq> None \<longrightarrow> k \<in> set ?ks"
  proof (rule impI, rule ccontr)
    assume v: "?v \<noteq> None" and "k \<notin> set ?ks"
    then have "k \<notin> set (ids a)" and "k \<notin> set (ids b)" by simp_all
    then have "?v = None" by (simp add: spec_value_None_iff value_of_notin)
    with v show False by simp
  qed
  have "k \<in> set (ids ?out) \<longleftrightarrow> k \<in> set ?ks \<and> ?v \<noteq> None"
    unfolding setids idsp by (simp del: not_None_eq)
  with keys show mem: "k \<in> set (ids ?out) \<longleftrightarrow> ?v \<noteq> None" by blast
  show "value_of ?out k = ?v"
  proof (cases "?v = None")
    case True
    with mem have "k \<notin> set (ids ?out)" by simp
    with True show ?thesis by (simp add: value_of_notin)
  next
    case False
    with keys have "k \<in> set ?ks" by blast
    with False have "irow t a b k \<in> set ?pre" by (simp add: irow_def)
    then have "cols (irow t a b k) \<in> cols ` set ?out" unfolding colsout by (rule imageI)
    then have "(k, ?v, fill_other (category_of a k)) \<in> cols ` set ?out"
      by (simp add: cols_def irow_def)
    from value_of_cols[OF dout this] show ?thesis by simp
  qed
  show "category_of ?out k = (if ?v = None then None else fill_other (category_of a k))"
  proof (cases "?v = None")
    case True
    with mem have "k \<notin> set (ids ?out)" by simp
    with True show ?thesis by (simp add: value_of_notin)
  next
    case False
    with keys have "k \<in> set ?ks" by blast
    with False have "irow t a b k \<in> set ?pre" by (simp add: irow_def)
    then have "cols (irow t a b k) \<in> cols ` set ?out" unfolding colsout by (rule imageI)
    then have "(k, ?v, fill_other (category_of a k)) \<in> cols ` set ?out"
      by (simp add: cols_def irow_def)
    from value_of_cols[OF dout this] False show ?thesis by auto
  qed
qed

lemma interp_y2000_y2001:
  "interpolate_df y2000 y2001 (1/2) =
     [\<lparr>iso3 = ''JPN'', life = Some (163/2), continent = Some ''Asia'', rank = 1\<rparr>,
      \<lparr>iso3 = ''FRA'', life = Some 79, continent = Some ''Other'', rank = 2\<rparr>,
      \<lparr>iso3 = ''USA'', life = Some (155/2), continent = Some ''North America'', rank = 3\<rparr>]"
  by code_simp

lemma distinct_y2000: "distinct (ids y2000)" by (simp add: ids_def y2000_def)
lemma distinct_y2001: "distinct (ids y2001)" by (simp add: ids_def y2001_def)

lemma value_of_y2000:
  "value_of y2000 ''JPN'' = Some 81" "value_of y2000 ''FRA'' = None"
  "value_of y2000 ''XXX'' = None" "category_of y2000 ''JPN'' = Some ''Asia''"
  "category_of y2000 ''FRA'' = None"
  by (simp_all add: value_of_def category_of_def row_of_def y2000_def)

lemma value_of_y2001:
  "value_of y2001 ''JPN'' = Some 82" "value_of y2001 ''FRA'' = Some 79"
  "value_of y2001 ''XXX'' = None" "category_of y2001 ''FRA'' = Some ''Europe''"
  by (simp_all add: value_of_def category_of_def row_of_def y2001_def)

text \<open>
  C2. For tables \<open>A\<close> and \<open>B\<close> in which every identity has one row, and every \<open>t\<close>:
  the value of an identity in \<^verbatim>\<open>interpolate_df(A, B, t)\<close> is \<open>a + (b - a) * t\<close> when it
  has the value \<open>a\<close> in \<open>A\<close> and \<open>b\<close> in \<open>B\<close>, its one known value when it has a value
  in only one of them, and the identity is absent from the result exactly when it has
  a value in neither. (\<open>spec_value\<close> is this rule.)
\<close>

theorem interpolate_values:
  assumes "distinct (ids A)" and "distinct (ids B)"
  shows "value_of (interpolate_df A B t) k = spec_value t (value_of A k) (value_of B k) \<and>
    (k \<in> set (ids (interpolate_df A B t)) \<longleftrightarrow> value_of A k \<noteq> None \<or> value_of B k \<noteq> None)"
  using interp_lookup(1,3)[OF assms, where t = t and k = k] by (simp add: spec_value_None_iff)

theorem interpolate_values_witness:
  "distinct (ids y2000) \<and> distinct (ids y2001) \<and>
   value_of (interpolate_df y2000 y2001 (1/2)) ''JPN'' = Some (163/2) \<and>
   value_of (interpolate_df y2000 y2001 (1/2)) ''FRA'' = Some 79 \<and>
   value_of (interpolate_df y2000 y2001 (1/2)) ''XXX'' = None \<and>
   ''XXX'' \<notin> set (ids (interpolate_df y2000 y2001 (1/2)))"
  using interpolate_values [OF distinct_y2000 distinct_y2001, where t = "1/2" and k = "''JPN''"]
    interpolate_values [OF distinct_y2000 distinct_y2001, where t = "1/2" and k = "''FRA''"]
    interpolate_values [OF distinct_y2000 distinct_y2001, where t = "1/2" and k = "''XXX''"]
  by (simp add: distinct_y2000 distinct_y2001 value_of_y2000 value_of_y2001 spec_value_def)

text \<open>
  C8. For an identity with a value in both tables, \<^verbatim>\<open>interpolate_df(A, B, 0)\<close> gives it
  the value it has in \<open>A\<close> and \<^verbatim>\<open>interpolate_df(A, B, 1)\<close> the value it has in \<open>B\<close>
  (exactly, in real arithmetic).
\<close>

theorem interpolate_endpoints:
  assumes "distinct (ids A)" and "distinct (ids B)"
    and "value_of A k = Some a" and "value_of B k = Some b"
  shows "value_of (interpolate_df A B 0) k = Some a \<and> value_of (interpolate_df A B 1) k = Some b"
  using interp_lookup(1)[OF assms(1,2)] assms(3,4) by (simp add: spec_value_def)

theorem interpolate_endpoints_witness:
  "distinct (ids y2000) \<and> distinct (ids y2001) \<and>
   value_of y2000 ''JPN'' = Some 81 \<and> value_of y2001 ''JPN'' = Some 82 \<and>
   value_of (interpolate_df y2000 y2001 0) ''JPN'' = Some 81 \<and>
   value_of (interpolate_df y2000 y2001 1) ''JPN'' = Some 82"
  using interpolate_endpoints [OF distinct_y2000 distinct_y2001 value_of_y2000(1) value_of_y2001(1)]
  by (simp add: distinct_y2000 distinct_y2001 value_of_y2000 value_of_y2001)

lemma ids_interp: "ids (interpolate_df y2000 y2001 (1/2)) = [''JPN'', ''FRA'', ''USA'']"
  by (simp add: interp_y2000_y2001 ids_def)

text \<open>
  C7, as stated, fails: France is in the table of 2001 only, with the category Europe,
  and the interpolated table gives it the category Other, not the one of 2001.
\<close>

theorem category_from_B_counterexample:
  "category_of y2001 ''FRA'' = Some ''Europe'' \<and>
   row_of y2000 ''FRA'' = None \<and>
   category_of (interpolate_df y2000 y2001 (1/2)) ''FRA'' = Some ''Other''"
  by (simp add: interp_y2000_y2001 value_of_y2001)
     (simp add: category_of_def row_of_def y2000_def)

text \<open>
  C7, amended. The category of an identity of the interpolated table is the one it has
  in \<open>A\<close>, and the default \<^verbatim>\<open>"Other"\<close> when \<open>A\<close> has no row for it or no category in
  its row; the categories of \<open>B\<close> are not read.
\<close>

theorem interpolate_category:
  assumes "distinct (ids A)" and "distinct (ids B)"
  shows "category_of (interpolate_df A B t) k =
     (if k \<in> set (ids (interpolate_df A B t))
      then Some (case category_of A k of Some c \<Rightarrow> c | None \<Rightarrow> ''Other'')
      else None)"
  using interp_lookup(2,3)[OF assms, where t = t and k = k]
  by (simp add: fill_other_def split: option.splits)

theorem interpolate_category_witness:
  "distinct (ids y2000) \<and> distinct (ids y2001) \<and>
   category_of (interpolate_df y2000 y2001 (1/2)) ''JPN'' = Some ''Asia'' \<and>
   category_of (interpolate_df y2000 y2001 (1/2)) ''FRA'' = Some ''Other''"
  using interpolate_category [OF distinct_y2000 distinct_y2001, where t = "1/2" and k = "''JPN''"]
    interpolate_category [OF distinct_y2000 distinct_y2001, where t = "1/2" and k = "''FRA''"]
  by (simp add: distinct_y2000 distinct_y2001 ids_interp value_of_y2000)

lemma sort_values_desc_notna:
  assumes "None \<notin> set (map life xs)"
  shows "sort_values_desc xs = sort_key (\<lambda>r. - the (life r)) xs"
proof -
  have "\<forall>r \<in> set xs. life r \<noteq> None"
  proof
    fix r assume "r \<in> set xs"
    then have "life r \<in> set (map life xs)" by simp
    with assms show "life r \<noteq> None" by metis
  qed
  then have "filter (\<lambda>r. life r \<noteq> None) xs = xs" "filter (\<lambda>r. life r = None) xs = []"
    by (simp_all del: not_None_eq add: filter_empty_conv)
  then show ?thesis unfolding sort_values_desc_def by simp
qed

lemma sorted_wrt_life_cong:
  assumes "map life xs = map life ys"
  shows "sorted_wrt (\<lambda>r s. the (life s) \<le> the (life r)) xs =
         sorted_wrt (\<lambda>r s. the (life s) \<le> the (life r)) ys"
proof -
  have "sorted_wrt (\<lambda>r s. the (life s) \<le> the (life r)) xs =
        sorted_wrt (\<lambda>l m. the m \<le> the l) (map life xs)"
    by (simp only: sorted_wrt_map)
  moreover have "sorted_wrt (\<lambda>r s. the (life s) \<le> the (life r)) ys =
        sorted_wrt (\<lambda>l m. the m \<le> the l) (map life ys)"
    by (simp only: sorted_wrt_map)
  ultimately show ?thesis using assms by simp
qed

lemma interpolate_df_sorted:
  "None \<notin> set (map life (interpolate_df A B t)) \<and>
   sorted_wrt (\<lambda>r s. the (life s) \<le> the (life r)) (interpolate_df A B t)"
proof -
  let ?pre = "filter (\<lambda>r. life r \<noteq> None) (map (interp_row t) (merge_outer A B))"
  let ?srt = "sort_values_desc ?pre"
  have out: "interpolate_df A B t = assign_rank ?srt"
    by (simp add: interpolate_df_def Let_def)
  have nn: "None \<notin> set (map life ?pre)" by (auto simp del: not_None_eq)
  have s: "?srt = sort_key (\<lambda>r. - the (life r)) ?pre"
    by (rule sort_values_desc_notna[OF nn])
  have "sorted (map (\<lambda>r. - the (life r)) ?srt)" unfolding s by (rule sorted_sort_key)
  then have "sorted_wrt (\<lambda>r s. the (life s) \<le> the (life r)) ?srt"
    by (simp add: sorted_map)
  then have 1: "sorted_wrt (\<lambda>r s. the (life s) \<le> the (life r)) (assign_rank ?srt)"
    using sorted_wrt_life_cong[OF map_life_assign_rank[of ?srt]] by simp
  have "set (map life ?srt) = set (map life ?pre)"
    by simp
  with nn have 2: "None \<notin> set (map life (assign_rank ?srt))"
    unfolding map_life_assign_rank by simp
  show ?thesis unfolding out using 1 2 by blast
qed

text \<open>
  C3. The ranks of \<^verbatim>\<open>interpolate_df(A, B, t)\<close> are 1, ..., N in the order of the rows,
  every row has a value, and the values descend along the rows. When every identity
  has one row in \<open>A\<close> and in \<open>B\<close>, N is the number of identities with a known value in
  \<open>A\<close> or \<open>B\<close>.
\<close>

theorem interpolate_ranks_dense:
  "map rank (interpolate_df A B t) = [1..int (length (interpolate_df A B t))] \<and>
   None \<notin> set (map life (interpolate_df A B t)) \<and>
   sorted_wrt (\<lambda>r s. the (life s) \<le> the (life r)) (interpolate_df A B t) \<and>
   (distinct (ids A) \<and> distinct (ids B) \<longrightarrow>
      length (interpolate_df A B t) = card {k. value_of A k \<noteq> None \<or> value_of B k \<noteq> None})"
proof -
  have 1: "map rank (interpolate_df A B t) = [1..int (length (interpolate_df A B t))]"
    by (simp add: interpolate_df_def Let_def map_rank_assign_rank)
  have 3: "length (interpolate_df A B t) = card {k. value_of A k \<noteq> None \<or> value_of B k \<noteq> None}"
    if d: "distinct (ids A)" "distinct (ids B)"
  proof -
    have "set (ids (interpolate_df A B t)) = {k. value_of A k \<noteq> None \<or> value_of B k \<noteq> None}"
      using interp_lookup(3)[OF d, where t = t] by (auto simp: spec_value_None_iff)
    moreover have "card (set (ids (interpolate_df A B t))) = length (ids (interpolate_df A B t))"
      using interp_lookup(4)[OF d] by (rule distinct_card)
    ultimately show ?thesis by (simp add: ids_def)
  qed
  show ?thesis using 1 interpolate_df_sorted[of A B t] 3 by blast
qed

theorem interpolate_ranks_dense_witness:
  "distinct (ids y2000) \<and> distinct (ids y2001) \<and>
   map rank (interpolate_df y2000 y2001 (1/2)) = [1, 2, 3] \<and>
   map (\<lambda>r. the (life r)) (interpolate_df y2000 y2001 (1/2)) = [163/2, 79, 155/2] \<and>
   card {k. value_of y2000 k \<noteq> None \<or> value_of y2001 k \<noteq> None} = 3"
  using interpolate_ranks_dense [of y2000 y2001 "1/2"]
  by (simp add: distinct_y2000 distinct_y2001 interp_y2000_y2001)


section \<open>The moved set\<close>








section \<open>The frames of a race\<close>

lemma steps_loop_Cons:
  "steps_loop df0 df1 y n (s # ss) st =
     steps_loop df0 df1 y n ss
       (step_state (interpolate_df df0 df1 (real s / real n)) (Interp y (real s / real n)) st)"
  by (simp add: Let_def step_state_def emit_def)

lemma frames_step_state:
  "map (\<lambda>f. (f_df f, f_label f)) (frames (step_state df l st)) =
     map (\<lambda>f. (f_df f, f_label f)) (frames st) @ [(df, l)]"
  by (simp add: step_state_def emit_def)

lemma chained_emit:
  assumes "chained st"
  shows "map f_index (frames (emit df l st)) = [0..<length (frames (emit df l st))]"
    and "map f_prev (frames (emit df l st)) =
      butlast (None # map (\<lambda>f. Some (f_df f)) (frames (emit df l st)))"
  using assms by (simp_all add: chained_def emit_def butlast_append)

lemma chained_step_state: "chained st \<Longrightarrow> chained (step_state df l st)"
  by (simp add: chained_def step_state_def emit_def butlast_append)

lemma steps_loop_frames:
  "map (\<lambda>f. (f_df f, f_label f)) (frames (steps_loop df0 df1 y n ss st)) =
     map (\<lambda>f. (f_df f, f_label f)) (frames st) @
     map (\<lambda>s. (interpolate_df df0 df1 (real s / real n), Interp y (real s / real n))) ss"
proof (induction ss arbitrary: st)
  case Nil
  show ?case by simp
next
  case (Cons s ss)
  show ?case unfolding steps_loop_Cons Cons.IH frames_step_state by simp
qed

lemma steps_loop_chained: "chained st \<Longrightarrow> chained (steps_loop df0 df1 y n ss st)"
proof (induction ss arbitrary: st)
  case Nil
  then show ?case by simp
next
  case (Cons s ss)
  show ?case unfolding steps_loop_Cons
    by (rule Cons.IH) (rule chained_step_state[OF Cons.prems])
qed

lemma years_loop_frames:
  "map (\<lambda>f. (f_df f, f_label f)) (frames (years_loop yd n ys st)) =
     map (\<lambda>f. (f_df f, f_label f)) (frames st) @ concat (map (pair_frames yd n) ys)"
proof (induction ys arbitrary: st)
  case Nil
  show ?case by simp
next
  case (Cons y ys)
  show ?case
    by (cases "yd y"; cases "yd (y + 1)")
       (simp_all add: Cons.IH pair_frames_def steps_loop_frames)
qed

lemma years_loop_chained: "chained st \<Longrightarrow> chained (years_loop yd n ys st)"
proof (induction ys arbitrary: st)
  case Nil
  then show ?case by simp
next
  case (Cons y ys)
  then show ?case
    by (cases "yd y"; cases "yd (y + 1)") (simp_all add: steps_loop_chained)
qed

lemma chained_init: "chained \<lparr>frames = [], prev_df = None, frame_idx = 0\<rparr>"
  by (simp add: chained_def)

lemma race_frames_content:
  "map (\<lambda>f. (f_df f, f_label f)) (race_frames yd start end S) =
     concat (map (pair_frames yd S) (range_up start end)) @
     (case yd end of None \<Rightarrow> [] | Some df_last \<Rightarrow> [(df_last, Year end)])"
  by (cases "yd end") (simp_all add: race_frames_def Let_def years_loop_frames emit_def)

lemma race_frames_chain:
  "map f_index (race_frames yd start end S) = [0..<length (race_frames yd start end S)] \<and>
   map f_prev (race_frames yd start end S) =
     butlast (None # map (\<lambda>f. Some (f_df f)) (race_frames yd start end S))"
proof -
  let ?st = "years_loop yd S (range_up start end) \<lparr>frames = [], prev_df = None, frame_idx = 0\<rparr>"
  have c: "chained ?st" by (rule years_loop_chained[OF chained_init])
  show ?thesis
  proof (cases "yd end")
    case None
    with c show ?thesis by (simp add: race_frames_def chained_def)
  next
    case (Some d)
    with chained_emit[OF c, of d "Year end"] show ?thesis
      by (simp add: race_frames_def)
  qed
qed

text \<open>
  C6, amended. The frames of the race are, pair by pair, the interpolation steps
  \<open>t = 0/S, ..., (S-1)/S\<close> of every pair of adjacent years that both have a table, and
  then one frame with the real table of the last year, when it has one: the real table
  of a year is a frame of its own only for the last year. The frames are numbered from
  0 without a gap, and each is rendered against the table of the frame before it.
\<close>

theorem race_frames_sequence:
  "map (\<lambda>f. (f_df f, f_label f)) (race_frames yd start end S) =
     concat (map (pair_frames yd S) (range_up start end)) @
     (case yd end of None \<Rightarrow> [] | Some df_last \<Rightarrow> [(df_last, Year end)]) \<and>
   map f_index (race_frames yd start end S) = [0..<length (race_frames yd start end S)] \<and>
   map f_prev (race_frames yd start end S) =
     butlast (None # map (\<lambda>f. Some (f_df f)) (race_frames yd start end S))"
  using race_frames_content[of yd start "end" S] race_frames_chain[of yd start "end" S]
  by blast

lemma range_up_1999_2001: "range_up 1999 2001 = [1999, 2000]"
  by (simp add: range_up_def upt_rec)

lemma interp_r2000_r2001_0:
  "interpolate_df r2000 r2001 0 =
     [\<lparr>iso3 = ''JPN'', life = Some 81, continent = Some ''Asia'', rank = 1\<rparr>,
      \<lparr>iso3 = ''FRA'', life = Some 79, continent = Some ''Other'', rank = 2\<rparr>,
      \<lparr>iso3 = ''USA'', life = Some 77, continent = Some ''North America'', rank = 3\<rparr>]"
  by code_simp

lemma content_three_years:
  "map (\<lambda>f. (f_df f, f_label f)) (main_race_frames three_years 1999 2001) =
     map (\<lambda>s. (interpolate_df r1999 r2000 (real s / 12), Interp 1999 (real s / 12))) [0..<12] @
     map (\<lambda>s. (interpolate_df r2000 r2001 (real s / 12), Interp 2000 (real s / 12))) [0..<12] @
     [(r2001, Year 2001)]"
  unfolding main_race_frames_def race_frames_content
  by (simp add: range_up_1999_2001 pair_frames_def three_years_def)

text \<open>
  C6, as stated, fails: with tables for 1999, 2000 and 2001, the pair (1999, 2000) has
  both tables, but after its twelve interpolation frames the next frame is the first
  interpolation step of the pair (2000, 2001), whose table is not the table of 2000 (it
  has a row for France); no frame carries the label of the year 2000.
\<close>

theorem real_frame_counterexample:
  "three_years 1999 = Some r1999 \<and> three_years 2000 = Some r2000 \<and>
   length (main_race_frames three_years 1999 2001) = 25 \<and>
   Year 2000 \<notin> set (map f_label (main_race_frames three_years 1999 2001)) \<and>
   f_label (main_race_frames three_years 1999 2001 ! 11) = Interp 1999 (11 / 12) \<and>
   f_label (main_race_frames three_years 1999 2001 ! 12) = Interp 2000 0 \<and>
   f_df (main_race_frames three_years 1999 2001 ! 12) = interpolate_df r2000 r2001 0 \<and>
   interpolate_df r2000 r2001 0 \<noteq> r2000"
proof -
  let ?fs = "main_race_frames three_years 1999 2001"
  let ?c = "\<lambda>f. (f_df f, f_label f)"
  have len: "length ?fs = 25"
    using arg_cong[OF content_three_years, of length] by simp
  have "map f_label ?fs = map snd (map ?c ?fs)" by (simp add: comp_def)
  then have lab: "map f_label ?fs =
      map (\<lambda>s. Interp 1999 (real s / 12)) [0..<12] @
      map (\<lambda>s. Interp 2000 (real s / 12)) [0..<12] @ [Year 2001]"
    unfolding content_three_years by (simp add: comp_def)
  have no: "Year 2000 \<notin> set (map f_label ?fs)"
    unfolding lab by auto
  have "?c (?fs ! 11) = map ?c ?fs ! 11" using len by simp
  then have f11: "f_label (?fs ! 11) = Interp 1999 (11 / 12)"
    unfolding content_three_years by (simp add: nth_append)
  have "?c (?fs ! 12) = map ?c ?fs ! 12" using len by simp
  then have f12: "f_label (?fs ! 12) = Interp 2000 0 \<and> f_df (?fs ! 12) = interpolate_df r2000 r2001 0"
    unfolding content_three_years by (simp add: nth_append)
  have ne: "interpolate_df r2000 r2001 0 \<noteq> r2000"
    unfolding interp_r2000_r2001_0 by (simp add: r2000_def)
  have y: "three_years 1999 = Some r1999 \<and> three_years 2000 = Some r2000"
    by (simp add: three_years_def)
  show ?thesis using len no f11 f12 ne y by blast
qed

lemma range_up_2000_2001: "range_up 2000 2001 = [2000]"
  by (simp add: range_up_def)

theorem race_frames_sequence_witness:
  "map (\<lambda>f. (f_df f, f_label f)) (race_frames three_years 2000 2001 2) =
     [(interpolate_df r2000 r2001 0, Interp 2000 0),
      (interpolate_df r2000 r2001 (1 / 2), Interp 2000 (1 / 2)),
      (r2001, Year 2001)] \<and>
   map f_index (race_frames three_years 2000 2001 2) = [0, 1, 2]"
proof -
  note t = race_frames_sequence [of three_years 2000 2001 2]
  from t have c: "map (\<lambda>f. (f_df f, f_label f)) (race_frames three_years 2000 2001 2) =
     [(interpolate_df r2000 r2001 0, Interp 2000 0),
      (interpolate_df r2000 r2001 (1 / 2), Interp 2000 (1 / 2)),
      (r2001, Year 2001)]"
    by (simp add: range_up_2000_2001 pair_frames_def three_years_def upt_rec)
  have len: "length (race_frames three_years 2000 2001 2) = 3"
    using arg_cong[OF c, of length] by simp
  from t have "map f_index (race_frames three_years 2000 2001 2) =
      [0..<length (race_frames three_years 2000 2001 2)]"
    by blast
  then have idx: "map f_index (race_frames three_years 2000 2001 2) = [0, 1, 2]"
    unfolding len by (simp add: upt_rec)
  show ?thesis using c idx by blast
qed

end
